theory Spec2Isabelle
  imports Complex_Main
begin

section \<open>The desktop CommonSelect component\<close>

text \<open>
  A shallow embedding of the script part of
  \<^verbatim>\<open>app/frontend/apps/desktop/components/CommonSelect/CommonSelect.vue\<close>.

  Conventions of the embedding:
  \<^item> An option value is a JavaScript primitive of type
    \<^verbatim>\<open>string | number | boolean\<close>; \<^verbatim>\<open>===\<close> on two of them is equality of the
    tagged values below (numbers are integers here; \<^verbatim>\<open>NaN\<close> is outside the model).
  \<^item> \<^verbatim>\<open>localValue\<close> is \<^verbatim>\<open>useVModel(props, 'modelValue', emit)\<close>: reading it reads
    \<^verbatim>\<open>props.modelValue\<close>, assigning to it emits \<^verbatim>\<open>update:modelValue\<close>. The parent is
    taken to bind the value with \<^verbatim>\<open>v-model\<close>, so that the emitted payload is the bound
    value from then on, as it is when the next user event arrives; the model stores it at
    once. \<^verbatim>\<open>push\<close> on the bound array changes that array in place and emits nothing.
  \<^item> Optional boolean props and \<^verbatim>\<open>option.disabled\<close> are \<open>False\<close> when absent.
  \<^item> \<^verbatim>\<open>useTrapTab\<close> is kept as the flag \<open>tabTrapActive\<close>, which \<^verbatim>\<open>deactivateTabTrap\<close>
    clears; \<^verbatim>\<open>testFlags.set\<close> is a callback in the trace.
  \<^item> Everything the component sends out (emitted events, callbacks handed to
    \<^verbatim>\<open>nextTick\<close>, \<^verbatim>\<open>requestAnimationFrame\<close> and \<^verbatim>\<open>onClickOutside\<close>) is appended to the
    field \<open>trace\<close>, in program order. An emitted event is recorded together with the
    bound value at the moment its listeners run.
  \<^item> The trigger's bounding box and the window height are reactive refs owned by the
    caller. A ref is an address; the values of all refs are held by the page. A
    \<^verbatim>\<open>computed\<close> keeps its last value together with the refs it read when it was
    evaluated, and is evaluated again only after one of those refs has changed.
    Assigning to a plain \<^verbatim>\<open>let\<close> variable does not make it evaluate again.
  \<^item> Of the template only its reads of \<^verbatim>\<open>hasDirectionUp\<close>, all inside
    \<^verbatim>\<open>v-if="showDropdown"\<close>, are modelled. \<^verbatim>\<open>dropdownStyle\<close>, \<^verbatim>\<open>highlightedOptions\<close> and the
    DOM queries of \<^verbatim>\<open>moveFocusToDropdown\<close> are not modelled.
\<close>

subsection \<open>Data\<close>

datatype prim = VStr string | VNum int | VBool bool

datatype model_value = Undefined | Null | Single prim | Multi "prim list"

record select_option =
  opt_value :: prim
  opt_label :: string
  opt_disabled :: bool

record props =
  modelValue :: model_value
  options :: "select_option list"
  "passive" :: bool
  multiple :: bool
  noClose :: bool
  noRefocus :: bool
  owner :: "string option"

type_synonym element = nat

text \<open>A \<^verbatim>\<open>Ref<number>\<close>, and \<^verbatim>\<open>UseElementBoundingReturn\<close>: an object of such refs.\<close>

type_synonym ref = nat

record bounds =
  bounds_x :: ref
  bounds_y :: ref
  bounds_top :: ref
  bounds_left :: ref
  bounds_width :: ref
  bounds_height :: ref

text \<open>
  The state of a \<^verbatim>\<open>computed\<close> of type boolean: not evaluated since its last
  invalidation, or holding a value and the refs read to obtain it.
\<close>

datatype computed_bool = Dirty | Cached bool "ref list"

record document =
  getElementById :: "string \<Rightarrow> element option"
  activeElement :: "element option"

datatype event = UpdateModelValue model_value | SelectEv select_option | CloseEv

datatype callback =
  FocusLastFocusableOutsideElement
  | SetTestFlag string
  | NextTickCb callback

datatype effect =
  Emit event model_value
  | NextTick callback
  | RequestAnimationFrame callback
  | OnClickOutside "element option"

record component =
  props :: props
  showDropdown :: bool
  inputElementBounds :: "bounds option"
  windowHeight :: "ref option"
  hasDirectionUp_cache :: computed_bool
  lastFocusableOutsideElement :: "element option"
  tabTrapActive :: bool
  trace :: "effect list"

subsection \<open>Emitting and the bound value\<close>

definition emit :: "event \<Rightarrow> component \<Rightarrow> component" where
  "emit e c = c\<lparr>trace := trace c @ [Emit e (modelValue (props c))]\<rparr>"

definition schedule :: "effect \<Rightarrow> component \<Rightarrow> component" where
  "schedule x c = c\<lparr>trace := trace c @ [x]\<rparr>"

definition localValue :: "component \<Rightarrow> model_value" where
  "localValue c = modelValue (props c)"

text \<open>
  \<^verbatim>\<open>localValue.value = v\<close>: the setter emits, the \<^verbatim>\<open>v-model\<close> binding stores. In the
  source the prop follows with the parent's next render, which has happened by the next
  user event. Only \<^verbatim>\<open>selectAll\<close> calls \<^verbatim>\<open>select\<close> several times before that render; there
  the source still reads the prop as it was before the assignments of the same call, and
  it differs from this definition only when two of the options it selects carry the same
  value.
\<close>

definition set_localValue :: "model_value \<Rightarrow> component \<Rightarrow> component" where
  "set_localValue v c =
     (let c1 = emit (UpdateModelValue v) c
      in c1\<lparr>props := (props c1)\<lparr>modelValue := v\<rparr>\<rparr>)"

text \<open>\<^verbatim>\<open>localValue.value.push(v)\<close> on a bound array.\<close>

definition push_localValue :: "prim \<Rightarrow> component \<Rightarrow> component" where
  "push_localValue v c =
     (case localValue c of
        Multi xs \<Rightarrow> c\<lparr>props := (props c)\<lparr>modelValue := Multi (xs @ [v])\<rparr>\<rparr>
      | _ \<Rightarrow> c)"

definition isArray :: "model_value \<Rightarrow> bool" where
  "isArray v = (case v of Multi xs \<Rightarrow> True | _ \<Rightarrow> False)"

subsection \<open>Construction\<close>

text \<open>
  \<^verbatim>\<open>if (localValue.value == null && props.multiple) localValue.value = []\<close>;
  \<^verbatim>\<open>== null\<close> holds of \<^verbatim>\<open>null\<close> and of \<^verbatim>\<open>undefined\<close>.
\<close>

definition initial :: "props \<Rightarrow> component" where
  "initial p =
     (let c = \<lparr>props = p, showDropdown = False, inputElementBounds = None,
                windowHeight = None, hasDirectionUp_cache = Dirty,
                lastFocusableOutsideElement = None, tabTrapActive = False, trace = []\<rparr>
      in if (localValue c = Null \<or> localValue c = Undefined) \<and> multiple p
         then set_localValue (Multi []) c else c)"

subsection \<open>Placement\<close>

text \<open>
  The function given to \<^verbatim>\<open>computed\<close> at lines 71-74, run against the current values of
  the refs: its result and the refs it reads, in the order it reads them. The two
  \<^verbatim>\<open>let\<close> variables are not refs, so the early return reads none.
\<close>

definition hasDirectionUp_getter :: "(ref \<Rightarrow> real) \<Rightarrow> component \<Rightarrow> bool \<times> ref list" where
  "hasDirectionUp_getter refs c =
     (case inputElementBounds c of
        None \<Rightarrow> (False, [])
      | Some b \<Rightarrow>
          (case windowHeight c of
             None \<Rightarrow> (False, [])
           | Some h \<Rightarrow> (refs (bounds_y b) > refs h / 2, [bounds_y b, h])))"

text \<open>
  Reading \<^verbatim>\<open>hasDirectionUp.value\<close>: the cached value when there is one, otherwise the
  getter's result, which is then cached with the refs read.
\<close>

definition hasDirectionUp :: "(ref \<Rightarrow> real) \<Rightarrow> component \<Rightarrow> bool \<times> component" where
  "hasDirectionUp refs c =
     (case hasDirectionUp_cache c of
        Cached v deps \<Rightarrow> (v, c)
      | Dirty \<Rightarrow>
          (let (v, deps) = hasDirectionUp_getter refs c
           in (v, c\<lparr>hasDirectionUp_cache := Cached v deps\<rparr>)))"

text \<open>A ref that the cached value was computed from has changed.\<close>

definition trigger :: "ref \<Rightarrow> component \<Rightarrow> component" where
  "trigger r c =
     (case hasDirectionUp_cache c of
        Cached v deps \<Rightarrow> (if r \<in> set deps then c\<lparr>hasDirectionUp_cache := Dirty\<rparr> else c)
      | Dirty \<Rightarrow> c)"

text \<open>Rendering the template reads the direction only while the dropdown is shown.\<close>

definition render :: "(ref \<Rightarrow> real) \<Rightarrow> component \<Rightarrow> component" where
  "render refs c = (if showDropdown c then snd (hasDirectionUp refs c) else c)"

subsection \<open>Closing\<close>

definition closeDropdown :: "component \<Rightarrow> component" where
  "closeDropdown c =
     (let c1 = c\<lparr>tabTrapActive := False\<rparr>;
          c2 = c1\<lparr>showDropdown := False\<rparr>;
          c3 = emit CloseEv c2;
          c4 = (if \<not> noRefocus (props c3)
                then schedule (NextTick FocusLastFocusableOutsideElement) c3 else c3)
      in schedule (NextTick (SetTestFlag ''common-select.closed'')) c4)"

text \<open>The Escape handler and the callback given to \<^verbatim>\<open>onClickOutside\<close> both call it.\<close>

definition onEscape :: "component \<Rightarrow> component" where
  "onEscape c = closeDropdown c"

definition onClickOutsideCallback :: "component \<Rightarrow> component" where
  "onClickOutsideCallback c = closeDropdown c"

definition getActiveElement :: "document \<Rightarrow> component \<Rightarrow> element option" where
  "getActiveElement d c =
     (case owner (props c) of
        Some ident \<Rightarrow> (if ident \<noteq> [] then getElementById d ident else activeElement d)
      | None \<Rightarrow> activeElement d)"

subsection \<open>Selecting\<close>

definition isCurrentValue :: "component \<Rightarrow> prim \<Rightarrow> bool" where
  "isCurrentValue c v =
     (case localValue c of
        Multi xs \<Rightarrow> (if multiple (props c) then v \<in> set xs else False)
      | other \<Rightarrow> other = Single v)"

definition select :: "component \<Rightarrow> select_option \<Rightarrow> component" where
  "select c option =
     (if opt_disabled option then c
      else
        let c1 = emit (SelectEv option) c in
        if passive (props c1) then
          (if \<not> multiple (props c1) then closeDropdown c1 else c1)
        else if multiple (props c1) \<and> isArray (localValue c1) then
          (case localValue c1 of
             Multi xs \<Rightarrow>
               if opt_value option \<in> set xs
               then set_localValue (Multi (filter (\<lambda>v. v \<noteq> opt_value option) xs)) c1
               else push_localValue (opt_value option) c1
           | _ \<Rightarrow> c1)
        else
          let c2 = (if modelValue (props c1) = Single (opt_value option)
                    then set_localValue Undefined c1
                    else set_localValue (Single (opt_value option)) c1)
          in if \<not> multiple (props c2) \<and> \<not> noClose (props c2)
             then closeDropdown c2 else c2)"

definition selectable :: "component \<Rightarrow> select_option list" where
  "selectable c =
     filter (\<lambda>option. \<not> opt_disabled option \<and> \<not> isCurrentValue c (opt_value option))
       (options (props c))"

definition hasMoreSelectableOptions :: "component \<Rightarrow> bool" where
  "hasMoreSelectableOptions c = (length (selectable c) > 0)"

definition selectAll :: "component \<Rightarrow> component" where
  "selectAll c = foldl select c (selectable c)"

subsection \<open>The registry of instances and opening\<close>

text \<open>
  Modelled from the spec: \<^verbatim>\<open>useCommonSelect.ts\<close>, which holds \<^verbatim>\<open>instances\<close>, is not among
  the sources. The spec describes it as a process-wide set of the live overlay instances,
  added to when a component is created and deleted from when it is unmounted. The set is
  a list without repetition, in insertion order; component objects live in a store and
  are named by their address. \<^verbatim>\<open>instance.isOpen\<close> is the instance's \<open>showDropdown\<close>.
\<close>

record world =
  store :: "nat \<Rightarrow> component option"
  instances :: "nat list"
  next_address :: nat
  refs :: "ref \<Rightarrow> real"

definition set_add :: "nat \<Rightarrow> nat list \<Rightarrow> nat list" where
  "set_add i xs = (if i \<in> set xs then xs else xs @ [i])"

definition set_delete :: "nat \<Rightarrow> nat list \<Rightarrow> nat list" where
  "set_delete i xs = removeAll i xs"

definition on_component :: "nat \<Rightarrow> (component \<Rightarrow> component) \<Rightarrow> world \<Rightarrow> world" where
  "on_component i f w =
     (case store w i of
        None \<Rightarrow> w
      | Some c \<Rightarrow> w\<lparr>store := (store w)(i := Some (f c))\<rparr>)"

definition isOpen :: "world \<Rightarrow> nat \<Rightarrow> bool" where
  "isOpen w i = (case store w i of None \<Rightarrow> False | Some c \<Rightarrow> showDropdown c)"

definition close_if_open :: "world \<Rightarrow> nat \<Rightarrow> world" where
  "close_if_open w j = (if isOpen w j then on_component j closeDropdown w else w)"

definition openDropdown :: "nat \<Rightarrow> bounds \<Rightarrow> ref \<Rightarrow> document \<Rightarrow> world \<Rightarrow> world" where
  "openDropdown i bnds height d w =
     (let w1 = on_component i
                 (\<lambda>c. c\<lparr>inputElementBounds := Some bnds, windowHeight := Some height\<rparr>) w;
          w2 = foldl close_if_open w1 (instances w1)
      in on_component i
           (\<lambda>c. let c1 = c\<lparr>showDropdown := True\<rparr>;
                     c2 = c1\<lparr>lastFocusableOutsideElement := getActiveElement d c1\<rparr>;
                     c3 = schedule (OnClickOutside (lastFocusableOutsideElement c2)) c2
                 in schedule
                      (RequestAnimationFrame (NextTickCb (SetTestFlag ''common-select.opened'')))
                      c3)
           w2)"

text \<open>Creating a component registers it; unmounting deletes it from the registry.\<close>

definition mount :: "props \<Rightarrow> world \<Rightarrow> world" where
  "mount p w =
     w\<lparr>store := (store w)(next_address w := Some (initial p)),
       instances := set_add (next_address w) (instances w),
       next_address := Suc (next_address w)\<rparr>"

definition unmount :: "nat \<Rightarrow> world \<Rightarrow> world" where
  "unmount i w = w\<lparr>instances := set_delete i (instances w)\<rparr>"

text \<open>
  The owner of a ref assigns to it (the page scrolls, the window is resized): nothing
  happens when the value is the same, otherwise the computed values that read the ref
  are invalidated.
\<close>

definition set_ref :: "ref \<Rightarrow> real \<Rightarrow> world \<Rightarrow> world" where
  "set_ref r v w =
     (if refs w r = v then w
      else w\<lparr>refs := (refs w)(r := v),
             store := (\<lambda>i. map_option (trigger r) (store w i))\<rparr>)"

text \<open>
  What can happen to the page: components come and go, the parent passes new props, a ref
  changes, a component is rendered, and the user or the parent calls an operation of some
  component.
\<close>

datatype action =
  Mount props
  | Unmount nat
  | NewProps nat props
  | SetRef ref real
  | Render nat
  | Open nat bounds ref document
  | Close nat
  | Escape nat
  | ClickOutside nat
  | Select nat select_option
  | SelectAll nat

fun step :: "world \<Rightarrow> action \<Rightarrow> world" where
  "step w (Mount p) = mount p w"
| "step w (Unmount i) = unmount i w"
| "step w (NewProps i p) = on_component i (\<lambda>c. c\<lparr>props := p\<rparr>) w"
| "step w (SetRef r v) = set_ref r v w"
| "step w (Render i) = on_component i (render (refs w)) w"
| "step w (Open i bnds height d) = openDropdown i bnds height d w"
| "step w (Close i) = on_component i closeDropdown w"
| "step w (Escape i) = on_component i onEscape w"
| "step w (ClickOutside i) = on_component i onClickOutsideCallback w"
| "step w (Select i option) = on_component i (\<lambda>c. select c option) w"
| "step w (SelectAll i) = on_component i selectAll w"

definition empty_world :: world where
  "empty_world =
     \<lparr>store = (\<lambda>i. None), instances = [], next_address = 0, refs = (\<lambda>r. 0)\<rparr>"

definition run :: "action list \<Rightarrow> world" where
  "run as = foldl step empty_world as"

definition open_instances :: "world \<Rightarrow> nat list" where
  "open_instances w = filter (isOpen w) (instances w)"

text \<open>What a read of \<^verbatim>\<open>hasDirectionUp.value\<close> in component \<open>i\<close> returns on this page.\<close>

definition direction_up :: "world \<Rightarrow> nat \<Rightarrow> bool option" where
  "direction_up w i = map_option (\<lambda>c. fst (hasDirectionUp (refs w) c)) (store w i)"

text \<open>Operations of one component, for a run of select and selectAll calls.\<close>

datatype operation = DoSelect select_option | DoSelectAll

fun apply_operation :: "component \<Rightarrow> operation \<Rightarrow> component" where
  "apply_operation c (DoSelect option) = select c option"
| "apply_operation c DoSelectAll = selectAll c"

text \<open>The per-option notifications in a trace, in order.\<close>

fun select_notifications :: "effect list \<Rightarrow> select_option list" where
  "select_notifications [] = []"
| "select_notifications (Emit (SelectEv option) v # xs) = option # select_notifications xs"
| "select_notifications (x # xs) = select_notifications xs"

text \<open>The payloads of the \<^verbatim>\<open>update:modelValue\<close> events in a trace, in order.\<close>

fun model_updates :: "effect list \<Rightarrow> model_value list" where
  "model_updates [] = []"
| "model_updates (Emit (UpdateModelValue v) old # xs) = v # model_updates xs"
| "model_updates (x # xs) = model_updates xs"

text \<open>The variables of a component, without what it has sent out.\<close>

definition state_of :: "component \<Rightarrow> component" where
  "state_of c = c\<lparr>trace := []\<rparr>"

subsection \<open>Sample inputs\<close>

definition example_options :: "select_option list" where
  "example_options =
     [\<lparr>opt_value = VNum 1, opt_label = ''one'', opt_disabled = False\<rparr>,
      \<lparr>opt_value = VNum 2, opt_label = ''two'', opt_disabled = True\<rparr>,
      \<lparr>opt_value = VNum 3, opt_label = ''three'', opt_disabled = False\<rparr>]"

definition example_props :: "bool \<Rightarrow> bool \<Rightarrow> model_value \<Rightarrow> props" where
  "example_props mult pass v =
     \<lparr>modelValue = v, options = example_options, passive = pass, multiple = mult,
      noClose = False, noRefocus = False, owner = None\<rparr>"

definition example_component :: "bool \<Rightarrow> bool \<Rightarrow> model_value \<Rightarrow> component" where
  "example_component mult pass v =
     \<lparr>props = example_props mult pass v, showDropdown = True, inputElementBounds = None,
      windowHeight = None, hasDirectionUp_cache = Dirty, lastFocusableOutsideElement = None,
      tabTrapActive = True, trace = []\<rparr>"

definition option_one :: select_option where
  "option_one = \<lparr>opt_value = VNum 1, opt_label = ''one'', opt_disabled = False\<rparr>"

definition option_two :: select_option where
  "option_two = \<lparr>opt_value = VNum 2, opt_label = ''two'', opt_disabled = True\<rparr>"

text \<open>
  Refs 0 to 2 hold the left edge, width and height of a trigger, the ref given to
  \<open>example_bounds\<close> its vertical position; refs 20 and 21 are window heights.
\<close>

definition example_bounds :: "ref \<Rightarrow> bounds" where
  "example_bounds y =
     \<lparr>bounds_x = 0, bounds_y = y, bounds_top = y, bounds_left = 0, bounds_width = 1,
      bounds_height = 2\<rparr>"

definition example_document :: document where
  "example_document = \<lparr>getElementById = (\<lambda>ident. None), activeElement = Some 7\<rparr>"

definition example_world :: world where
  "example_world =
     run [Mount (example_props False False Undefined), Mount (example_props True False Null),
          Open 0 (example_bounds 10) 20 example_document]"

text \<open>One component on a page where a trigger at height \<open>y\<close> sits in a window of height 100.\<close>

definition example_page :: "real \<Rightarrow> world" where
  "example_page y =
     run [SetRef 10 y, SetRef 20 100, Mount (example_props False False Undefined)]"

section \<open>Properties\<close>

subsection \<open>Basic facts about the operations\<close>

lemma emit_simps:
  "props (emit e c) = props c"
  "showDropdown (emit e c) = showDropdown c"
  "inputElementBounds (emit e c) = inputElementBounds c"
  "windowHeight (emit e c) = windowHeight c"
  "hasDirectionUp_cache (emit e c) = hasDirectionUp_cache c"
  "lastFocusableOutsideElement (emit e c) = lastFocusableOutsideElement c"
  "tabTrapActive (emit e c) = tabTrapActive c"
  "trace (emit e c) = trace c @ [Emit e (modelValue (props c))]"
  by (simp_all add: emit_def)

lemma closeDropdown_simps:
  "props (closeDropdown c) = props c"
  "showDropdown (closeDropdown c) = False"
  "inputElementBounds (closeDropdown c) = inputElementBounds c"
  "windowHeight (closeDropdown c) = windowHeight c"
  "hasDirectionUp_cache (closeDropdown c) = hasDirectionUp_cache c"
  "lastFocusableOutsideElement (closeDropdown c) = lastFocusableOutsideElement c"
  "tabTrapActive (closeDropdown c) = False"
  by (simp_all add: closeDropdown_def emit_def schedule_def Let_def)

lemma closeDropdown_trace:
  "trace (closeDropdown c) =
     trace c @ Emit CloseEv (modelValue (props c))
       # (if noRefocus (props c) then [] else [NextTick FocusLastFocusableOutsideElement])
       @ [NextTick (SetTestFlag ''common-select.closed'')]"
  by (simp add: closeDropdown_def emit_def schedule_def Let_def)

lemma set_localValue_simps:
  "props (set_localValue v c) = (props c)\<lparr>modelValue := v\<rparr>"
  "showDropdown (set_localValue v c) = showDropdown c"
  "inputElementBounds (set_localValue v c) = inputElementBounds c"
  "windowHeight (set_localValue v c) = windowHeight c"
  "hasDirectionUp_cache (set_localValue v c) = hasDirectionUp_cache c"
  "lastFocusableOutsideElement (set_localValue v c) = lastFocusableOutsideElement c"
  "tabTrapActive (set_localValue v c) = tabTrapActive c"
  "trace (set_localValue v c) = trace c @ [Emit (UpdateModelValue v) (modelValue (props c))]"
  by (simp_all add: set_localValue_def emit_def Let_def)

lemma push_localValue_Multi:
  "modelValue (props c) = Multi xs \<Longrightarrow>
   push_localValue v c = c\<lparr>props := (props c)\<lparr>modelValue := Multi (xs @ [v])\<rparr>\<rparr>"
  by (simp add: push_localValue_def localValue_def)

lemma select_multi:
  assumes "multiple (props c)" "\<not> passive (props c)" "\<not> opt_disabled option"
    "modelValue (props c) = Multi xs"
  shows "select c option =
     (if opt_value option \<in> set xs
      then set_localValue (Multi (filter (\<lambda>v. v \<noteq> opt_value option) xs)) (emit (SelectEv option) c)
      else push_localValue (opt_value option) (emit (SelectEv option) c))"
  using assms by (simp add: select_def Let_def emit_simps localValue_def isArray_def)

lemma select_single:
  assumes "\<not> multiple (props c)" "\<not> passive (props c)" "\<not> opt_disabled option"
  shows "select c option =
     (let c2 = set_localValue
                 (if modelValue (props c) = Single (opt_value option) then Undefined
                  else Single (opt_value option))
                 (emit (SelectEv option) c)
      in if noClose (props c) then c2 else closeDropdown c2)"
  using assms by (simp add: select_def Let_def emit_simps set_localValue_simps)

lemma select_passive:
  assumes "passive (props c)" "\<not> opt_disabled option"
  shows "select c option =
     (if multiple (props c) then emit (SelectEv option) c
      else closeDropdown (emit (SelectEv option) c))"
  using assms by (simp add: select_def Let_def emit_simps)

lemma select_notifications_append:
  "select_notifications (xs @ ys) = select_notifications xs @ select_notifications ys"
  by (induction xs rule: select_notifications.induct) simp_all

lemmas example_defs = example_component_def example_props_def example_options_def
  option_one_def option_two_def

lemma select_multi_value:
  assumes "multiple (props c)" and "\<not> passive (props c)" and "\<not> opt_disabled option"
    and "modelValue (props c) = Multi xs"
  shows "modelValue (props (select c option)) =
           Multi (if opt_value option \<in> set xs
                  then filter (\<lambda>v. v \<noteq> opt_value option) xs
                  else xs @ [opt_value option])"
    and "showDropdown (select c option) = showDropdown c"
    and "multiple (props (select c option))"
    and "\<not> passive (props (select c option))"
  using assms
  by (simp_all add: select_multi set_localValue_simps push_localValue_Multi emit_simps)

lemma model_updates_append:
  "model_updates (xs @ ys) = model_updates xs @ model_updates ys"
  by (induction xs rule: model_updates.induct) simp_all

lemma select_notifications_select:
  "select_notifications (trace (select c option)) =
     select_notifications (trace c) @ (if opt_disabled option then [] else [option])"
  by (simp add: select_def Let_def emit_simps set_localValue_simps closeDropdown_trace
      push_localValue_def localValue_def isArray_def select_notifications_append
      split: model_value.splits)

lemma select_notifications_foldl:
  "select_notifications (trace (foldl select c os)) =
     select_notifications (trace c) @ filter (\<lambda>option. \<not> opt_disabled option) os"
  by (induction os arbitrary: c) (simp_all add: select_notifications_select)

lemma foldl_select_push:
  assumes "multiple (props c)" and "\<not> passive (props c)" and "modelValue (props c) = Multi xs"
    and "distinct (map opt_value os)"
    and "\<forall>option \<in> set os. \<not> opt_disabled option \<and> opt_value option \<notin> set xs"
  shows "modelValue (props (foldl select c os)) = Multi (xs @ map opt_value os)"
  using assms
proof (induction os arbitrary: c xs)
  case Nil
  then show ?case by simp
next
  case (Cons a os)
  have a: "\<not> opt_disabled a" "opt_value a \<notin> set xs"
    using Cons.prems(5) by simp_all
  note step = select_multi_value [OF Cons.prems(1) Cons.prems(2) a(1) Cons.prems(3)]
  have v: "modelValue (props (select c a)) = Multi (xs @ [opt_value a])"
    using step(1) a(2) by simp
  have rest: "\<forall>option \<in> set os. \<not> opt_disabled option \<and> opt_value option \<notin> set (xs @ [opt_value a])"
    using Cons.prems(4,5) by (auto simp: image_iff)
  have "distinct (map opt_value os)"
    using Cons.prems(4) by simp
  from Cons.IH [OF step(3) step(4) v this rest]
  show ?case by simp
qed

lemma select_keeps_array:
  assumes "multiple (props c)" and "modelValue (props c) = Multi xs"
  shows "multiple (props (select c option)) \<and> (\<exists>ys. modelValue (props (select c option)) = Multi ys)"
  using assms
  by (simp add: select_def Let_def emit_simps set_localValue_simps closeDropdown_simps
      push_localValue_def localValue_def isArray_def)

lemma foldl_select_keeps_array:
  assumes "multiple (props c)" and "modelValue (props c) = Multi xs"
  shows "multiple (props (foldl select c os)) \<and> (\<exists>ys. modelValue (props (foldl select c os)) = Multi ys)"
  using assms
proof (induction os arbitrary: c xs)
  case Nil
  then show ?case by simp
next
  case (Cons a os)
  from select_keeps_array [OF Cons.prems, of a]
  obtain ys where "multiple (props (select c a))" "modelValue (props (select c a)) = Multi ys"
    by blast
  from Cons.IH [OF this] show ?case by simp
qed

lemma apply_operation_keeps_array:
  assumes "multiple (props c)" and "modelValue (props c) = Multi xs"
  shows "multiple (props (apply_operation c x))
         \<and> (\<exists>ys. modelValue (props (apply_operation c x)) = Multi ys)"
proof (cases x)
  case (DoSelect option)
  then show ?thesis using select_keeps_array [OF assms] by simp
next
  case DoSelectAll
  then show ?thesis using foldl_select_keeps_array [OF assms] by (simp add: selectAll_def)
qed

lemma foldl_apply_operation_keeps_array:
  assumes "multiple (props c)" and "modelValue (props c) = Multi xs"
  shows "multiple (props (foldl apply_operation c ops))
         \<and> (\<exists>ys. modelValue (props (foldl apply_operation c ops)) = Multi ys)"
  using assms
proof (induction ops arbitrary: c xs)
  case Nil
  then show ?case by simp
next
  case (Cons a ops)
  from apply_operation_keeps_array [OF Cons.prems, of a]
  obtain ys where "multiple (props (apply_operation c a))"
    "modelValue (props (apply_operation c a)) = Multi ys"
    by blast
  from Cons.IH [OF this] show ?case by simp
qed

subsection \<open>The registry: opening closes the others\<close>

lemma on_component_simps:
  "instances (on_component i f w) = instances w"
  "next_address (on_component i f w) = next_address w"
  "refs (on_component i f w) = refs w"
  "store (on_component i f w) j = (if j = i then map_option f (store w i) else store w j)"
  by (simp_all add: on_component_def split: option.splits)

lemma isOpen_on_component:
  "isOpen (on_component i f w) j =
     (if j = i then (case store w i of None \<Rightarrow> False | Some c \<Rightarrow> showDropdown (f c))
      else isOpen w j)"
  by (simp add: isOpen_def on_component_simps split: option.splits)

lemma close_if_open_simps:
  "instances (close_if_open w a) = instances w"
  "refs (close_if_open w a) = refs w"
  "store (close_if_open w a) j =
     (if j = a \<and> isOpen w a then map_option closeDropdown (store w a) else store w j)"
  by (simp_all add: close_if_open_def on_component_simps)

lemma isOpen_close_if_open:
  "isOpen (close_if_open w a) j = (if j = a then False else isOpen w j)"
  by (auto simp add: isOpen_def close_if_open_simps closeDropdown_simps split: option.splits)

lemma foldl_close_instances:
  "instances (foldl close_if_open w js) = instances w"
  by (induction js arbitrary: w) (simp_all add: close_if_open_simps)

lemma foldl_close_refs:
  "refs (foldl close_if_open w js) = refs w"
  by (induction js arbitrary: w) (simp_all add: close_if_open_simps)

lemma foldl_close_store:
  "store (foldl close_if_open w js) j =
     (if j \<in> set js \<and> isOpen w j then map_option closeDropdown (store w j) else store w j)"
proof (induction js arbitrary: w)
  case Nil
  then show ?case by simp
next
  case (Cons a js)
  show ?case
  proof (cases "j = a")
    case True
    then show ?thesis
      using Cons.IH [of "close_if_open w a"]
      by (simp add: isOpen_close_if_open close_if_open_simps)
  next
    case False
    then show ?thesis
      by (simp add: Cons.IH isOpen_close_if_open close_if_open_simps)
  qed
qed

lemma isOpen_foldl_close:
  "isOpen (foldl close_if_open w js) j = (if j \<in> set js then False else isOpen w j)"
  by (auto simp add: isOpen_def foldl_close_store closeDropdown_simps split: option.splits)

lemma openDropdown_instances:
  "instances (openDropdown i b h d w) = instances w"
  by (simp add: openDropdown_def Let_def on_component_simps foldl_close_instances)

lemma openDropdown_refs:
  "refs (openDropdown i b h d w) = refs w"
  by (simp add: openDropdown_def Let_def on_component_simps foldl_close_refs)

lemma openDropdown_others:
  assumes "j \<noteq> i"
  shows "store (openDropdown i b h d w) j =
     (if j \<in> set (instances w) \<and> isOpen w j then map_option closeDropdown (store w j)
      else store w j)"
  using assms
  by (simp add: openDropdown_def Let_def on_component_simps foldl_close_store
      isOpen_on_component)

lemma isOpen_openDropdown:
  "isOpen (openDropdown i b h d w) j =
     (if j = i then store w i \<noteq> None
      else if j \<in> set (instances w) then False else isOpen w j)"
  by (auto simp add: openDropdown_def Let_def isOpen_on_component foldl_close_store
      on_component_simps isOpen_foldl_close schedule_def split: option.splits)

lemma openDropdown_placement:
  assumes "store w i = Some c"
  shows "\<exists>c'. store (openDropdown i b h d w) i = Some c'
           \<and> inputElementBounds c' = Some b \<and> windowHeight c' = Some h
           \<and> showDropdown c' \<and> hasDirectionUp_cache c' = hasDirectionUp_cache c"
  using assms
  by (simp add: openDropdown_def Let_def on_component_simps foldl_close_store
      closeDropdown_simps schedule_def)

lemma select_not_opening: "showDropdown (select c option) \<Longrightarrow> showDropdown c"
  by (simp add: select_def Let_def emit_simps set_localValue_simps closeDropdown_simps
      push_localValue_def localValue_def isArray_def
      split: if_splits model_value.splits)

lemma foldl_select_not_opening: "showDropdown (foldl select c os) \<Longrightarrow> showDropdown c"
  by (induction os arbitrary: c) (auto dest: select_not_opening)

lemma selectAll_not_opening: "showDropdown (selectAll c) \<Longrightarrow> showDropdown c"
  by (simp add: selectAll_def foldl_select_not_opening)

lemma filter_at_most_one:
  assumes "distinct xs" and "\<forall>x \<in> set xs. \<forall>y \<in> set xs. P x \<longrightarrow> P y \<longrightarrow> x = y"
  shows "length (filter P xs) \<le> 1"
  using assms
proof (induction xs)
  case Nil
  then show ?case by simp
next
  case (Cons a xs)
  show ?case
  proof (cases "P a")
    case True
    then have "\<forall>y \<in> set xs. \<not> P y"
      using Cons.prems by auto
    then have "filter P xs = []"
      by (simp add: filter_empty_conv)
    then show ?thesis by simp
  next
    case False
    then show ?thesis using Cons by simp
  qed
qed

lemma hasDirectionUp_simps:
  "props (snd (hasDirectionUp rs c)) = props c"
  "showDropdown (snd (hasDirectionUp rs c)) = showDropdown c"
  "inputElementBounds (snd (hasDirectionUp rs c)) = inputElementBounds c"
  "windowHeight (snd (hasDirectionUp rs c)) = windowHeight c"
  "trace (snd (hasDirectionUp rs c)) = trace c"
  by (simp_all add: hasDirectionUp_def Let_def split: computed_bool.splits prod.splits)

lemma hasDirectionUp_cached:
  "hasDirectionUp_cache c = Cached v deps \<Longrightarrow> hasDirectionUp rs c = (v, c)"
  by (simp add: hasDirectionUp_def)

lemma hasDirectionUp_dirty:
  assumes "hasDirectionUp_cache c = Dirty"
    and "inputElementBounds c = Some b" and "windowHeight c = Some h"
  shows "hasDirectionUp rs c =
     (rs h / 2 < rs (bounds_y b),
      c\<lparr>hasDirectionUp_cache := Cached (rs h / 2 < rs (bounds_y b)) [bounds_y b, h]\<rparr>)"
  using assms by (simp add: hasDirectionUp_def hasDirectionUp_getter_def)

lemma trigger_simps:
  "props (trigger r c) = props c"
  "showDropdown (trigger r c) = showDropdown c"
  by (simp_all add: trigger_def split: computed_bool.splits)

lemma render_not_opening: "showDropdown (render rs c) \<Longrightarrow> showDropdown c"
  by (simp add: render_def split: if_splits)

lemma set_ref_simps:
  "instances (set_ref r v w) = instances w"
  "isOpen (set_ref r v w) j = isOpen w j"
  by (simp_all add: set_ref_def isOpen_def trigger_simps split: option.splits)

lemma on_component_not_opening:
  assumes "\<And>c. showDropdown (f c) \<Longrightarrow> showDropdown c"
  shows "isOpen (on_component i f w) j \<Longrightarrow> isOpen w j"
  using assms by (cases "j = i"; cases "store w i") (auto simp add: isOpen_def on_component_simps)

lemma step_keeps_instances_distinct:
  "distinct (instances w) \<Longrightarrow> distinct (instances (step w a))"
  by (cases a)
     (simp_all add: mount_def unmount_def set_add_def set_delete_def on_component_simps
       openDropdown_instances distinct_removeAll set_ref_simps)

lemma step_keeps_one_open:
  assumes "\<forall>i \<in> set (instances w). \<forall>j \<in> set (instances w). isOpen w i \<longrightarrow> isOpen w j \<longrightarrow> i = j"
  shows "\<forall>i \<in> set (instances (step w a)). \<forall>j \<in> set (instances (step w a)).
           isOpen (step w a) i \<longrightarrow> isOpen (step w a) j \<longrightarrow> i = j"
proof (cases a)
  case (Mount p)
  have closed: "\<not> showDropdown (initial p)"
    by (simp add: initial_def Let_def set_localValue_simps)
  have "isOpen (step w a) j \<Longrightarrow> isOpen w j \<and> j \<noteq> next_address w" for j
    using closed by (simp add: Mount mount_def isOpen_def split: if_splits)
  moreover have "set (instances (step w a)) = insert (next_address w) (set (instances w))"
    by (auto simp add: Mount mount_def set_add_def)
  ultimately show ?thesis using assms by blast
next
  case (Unmount i)
  have "isOpen (step w a) j = isOpen w j" for j
    by (simp add: Unmount unmount_def isOpen_def)
  moreover have "set (instances (step w a)) \<subseteq> set (instances w)"
    by (auto simp add: Unmount unmount_def set_delete_def)
  ultimately show ?thesis using assms by blast
next
  case (NewProps i p)
  have "isOpen (step w a) j \<Longrightarrow> isOpen w j" for j
    unfolding NewProps step.simps by (rule on_component_not_opening) simp_all
  then show ?thesis using assms by (simp add: NewProps on_component_simps)
next
  case (SetRef r v)
  show ?thesis using assms by (simp add: SetRef set_ref_simps)
next
  case (Render i)
  have "isOpen (step w a) j \<Longrightarrow> isOpen w j" for j
    unfolding Render step.simps
    by (rule on_component_not_opening) (auto dest: render_not_opening)
  then show ?thesis using assms by (simp add: Render on_component_simps)
next
  case (Open i b h d)
  show ?thesis
    by (simp add: Open openDropdown_instances isOpen_openDropdown)
next
  case (Close i)
  have "isOpen (step w a) j \<Longrightarrow> isOpen w j" for j
    unfolding Close step.simps
    by (rule on_component_not_opening) (simp_all add: closeDropdown_simps)
  then show ?thesis using assms by (simp add: Close on_component_simps)
next
  case (Escape i)
  have "isOpen (step w a) j \<Longrightarrow> isOpen w j" for j
    unfolding Escape step.simps
    by (rule on_component_not_opening) (simp_all add: onEscape_def closeDropdown_simps)
  then show ?thesis using assms by (simp add: Escape on_component_simps)
next
  case (ClickOutside i)
  have "isOpen (step w a) j \<Longrightarrow> isOpen w j" for j
    unfolding ClickOutside step.simps
    by (rule on_component_not_opening)
       (simp_all add: onClickOutsideCallback_def closeDropdown_simps)
  then show ?thesis using assms by (simp add: ClickOutside on_component_simps)
next
  case (Select i option)
  have "isOpen (step w a) j \<Longrightarrow> isOpen w j" for j
    unfolding Select step.simps
    by (rule on_component_not_opening) (auto dest: select_not_opening)
  then show ?thesis using assms by (simp add: Select on_component_simps)
next
  case (SelectAll i)
  have "isOpen (step w a) j \<Longrightarrow> isOpen w j" for j
    unfolding SelectAll step.simps
    by (rule on_component_not_opening) (auto dest: selectAll_not_opening)
  then show ?thesis using assms by (simp add: SelectAll on_component_simps)
qed

lemma foldl_step_invariant:
  assumes "distinct (instances w)"
    and "\<forall>i \<in> set (instances w). \<forall>j \<in> set (instances w). isOpen w i \<longrightarrow> isOpen w j \<longrightarrow> i = j"
  shows "distinct (instances (foldl step w as))
         \<and> (\<forall>i \<in> set (instances (foldl step w as)). \<forall>j \<in> set (instances (foldl step w as)).
               isOpen (foldl step w as) i \<longrightarrow> isOpen (foldl step w as) j \<longrightarrow> i = j)"
  using assms
proof (induction as arbitrary: w)
  case Nil
  then show ?case by simp
next
  case (Cons a as)
  from Cons.IH [OF step_keeps_instances_distinct [OF Cons.prems(1)]
      step_keeps_one_open [OF Cons.prems(2)]]
  show ?case by simp
qed

lemma example_world_eval:
  "instances example_world = [0, Suc 0]"
  "isOpen example_world 0"
  "\<not> isOpen example_world (Suc 0)"
  "\<exists>y. store example_world (Suc 0) = Some y"
  by (simp_all add: example_world_def run_def empty_world_def mount_def set_add_def
      isOpen_openDropdown openDropdown_instances openDropdown_others)

subsection \<open>The claims\<close>

text \<open>
  C1. \<open>openDropdown\<close> of a component first closes every registered instance that is
  open, each by its own \<open>closeDropdown\<close>, and only then sets the component's
  \<open>showDropdown\<close>: afterwards the component is open and no other registered instance is.
  Hence in every state reached from the empty page by mounting, unmounting, new props and
  the components' operations, at most one registered instance is open.
\<close>

theorem at_most_one_open:
  "length (open_instances (run as)) \<le> 1
   \<and> instances (openDropdown i b h d w) = instances w
   \<and> (store w i \<noteq> None \<longrightarrow> isOpen (openDropdown i b h d w) i)
   \<and> (\<forall>j \<in> set (instances w). j \<noteq> i \<longrightarrow>
         \<not> isOpen (openDropdown i b h d w) j
         \<and> store (openDropdown i b h d w) j =
             (if isOpen w j then map_option closeDropdown (store w j) else store w j))"
proof -
  have "distinct (instances (run as))
        \<and> (\<forall>i \<in> set (instances (run as)). \<forall>j \<in> set (instances (run as)).
              isOpen (run as) i \<longrightarrow> isOpen (run as) j \<longrightarrow> i = j)"
    unfolding run_def by (rule foldl_step_invariant) (simp_all add: empty_world_def)
  then have "length (open_instances (run as)) \<le> 1"
    unfolding open_instances_def by (intro filter_at_most_one) simp_all
  then show ?thesis
    by (simp add: openDropdown_instances isOpen_openDropdown openDropdown_others)
qed

theorem at_most_one_open_witness:
  "isOpen example_world 0 \<and> \<not> isOpen example_world 1
   \<and> store example_world 1 \<noteq> None
   \<and> isOpen (openDropdown 1 (example_bounds 10) 20 example_document example_world) 1
   \<and> \<not> isOpen (openDropdown 1 (example_bounds 10) 20 example_document example_world) 0
   \<and> open_instances (run [Mount (example_props False False Undefined),
         Mount (example_props True False Null),
         Open 0 (example_bounds 10) 20 example_document,
         Open 1 (example_bounds 10) 20 example_document]) = [1]"
proof -
  have "open_instances (run [Mount (example_props False False Undefined),
         Mount (example_props True False Null),
         Open 0 (example_bounds 10) 20 example_document,
         Open 1 (example_bounds 10) 20 example_document]) = [1]"
    by (simp add: open_instances_def run_def empty_world_def mount_def set_add_def
        isOpen_openDropdown openDropdown_instances openDropdown_others)
  then show ?thesis
    using at_most_one_open [of "[]" 1 "example_bounds 10" 20 example_document example_world]
    by (simp add: example_world_eval)
qed

text \<open>
  C2. Multiple mode, not passive, bound value an array, option not disabled: \<open>select\<close>
  removes every occurrence of the option's value when it is in the array and appends it
  when it is not, and leaves \<open>showDropdown\<close> as it was. A second \<open>select\<close> of the same
  option gives back the same set of values; the array itself is the original one when the
  value was absent, and otherwise has lost the value's occurrences and carries it at the end.
\<close>

theorem select_multiple_toggles:
  assumes "multiple (props c)" and "\<not> passive (props c)" and "\<not> opt_disabled option"
    and "modelValue (props c) = Multi xs"
  shows "modelValue (props (select c option)) =
           Multi (if opt_value option \<in> set xs
                  then filter (\<lambda>v. v \<noteq> opt_value option) xs
                  else xs @ [opt_value option])
         \<and> showDropdown (select c option) = showDropdown c
         \<and> modelValue (props (select (select c option) option)) =
           Multi (if opt_value option \<in> set xs
                  then filter (\<lambda>v. v \<noteq> opt_value option) xs @ [opt_value option]
                  else xs)
         \<and> (\<exists>ys. modelValue (props (select (select c option) option)) = Multi ys
                \<and> set ys = set xs)"
proof -
  let ?v = "opt_value option"
  let ?c1 = "select c option"
  note once = select_multi_value [OF assms]
  have twice: "modelValue (props (select ?c1 option)) =
      Multi (if ?v \<in> set xs then filter (\<lambda>v. v \<noteq> ?v) xs @ [?v] else xs)"
  proof (cases "?v \<in> set xs")
    case True
    then have "modelValue (props ?c1) = Multi (filter (\<lambda>v. v \<noteq> ?v) xs)"
      using once(1) by simp
    from select_multi_value(1) [OF once(3) once(4) assms(3) this] True
    show ?thesis by simp
  next
    case False
    then have "modelValue (props ?c1) = Multi (xs @ [?v])"
      using once(1) by simp
    from select_multi_value(1) [OF once(3) once(4) assms(3) this] False
    show ?thesis by (auto simp: filter_id_conv)
  qed
  have "set (if ?v \<in> set xs then filter (\<lambda>v. v \<noteq> ?v) xs @ [?v] else xs) = set xs"
    by auto
  then have "\<exists>ys. modelValue (props (select ?c1 option)) = Multi ys \<and> set ys = set xs"
    using twice by blast
  with once(1,2) twice show ?thesis by blast
qed

text \<open>
  Selecting the first of two selected values twice moves it behind the other one.
\<close>

theorem select_multiple_twice_counterexample:
  "multiple (props (example_component True False (Multi [VNum 1, VNum 2])))
   \<and> \<not> passive (props (example_component True False (Multi [VNum 1, VNum 2])))
   \<and> \<not> opt_disabled option_one
   \<and> modelValue (props (example_component True False (Multi [VNum 1, VNum 2]))) =
       Multi [VNum 1, VNum 2]
   \<and> modelValue (props (select (select (example_component True False (Multi [VNum 1, VNum 2]))
        option_one) option_one)) = Multi [VNum 2, VNum 1]
   \<and> modelValue (props (select (select (example_component True False (Multi [VNum 1, VNum 2]))
        option_one) option_one)) \<noteq>
       modelValue (props (example_component True False (Multi [VNum 1, VNum 2])))"
  by (simp add: example_defs select_def Let_def emit_def set_localValue_def
      push_localValue_def localValue_def isArray_def)

theorem select_multiple_toggles_witness:
  "modelValue (props (select (example_component True False (Multi [VNum 1, VNum 2])) option_one)) =
     Multi [VNum 2]
   \<and> showDropdown (select (example_component True False (Multi [VNum 1, VNum 2])) option_one)
   \<and> modelValue (props (select (select (example_component True False (Multi [VNum 1, VNum 2]))
        option_one) option_one)) = Multi [VNum 2, VNum 1]"
  using select_multiple_toggles [of "example_component True False (Multi [VNum 1, VNum 2])"
      option_one "[VNum 1, VNum 2]"]
  by (simp add: example_defs)

text \<open>
  C3. Single mode, not passive, option not disabled: \<open>select\<close> writes \<^verbatim>\<open>undefined\<close> when the
  bound value is the option's value and the option's value otherwise, and then closes the
  dropdown unless \<open>noClose\<close> is set.
\<close>

theorem select_single_toggles:
  assumes "\<not> multiple (props c)" and "\<not> passive (props c)" and "\<not> opt_disabled option"
  shows "modelValue (props (select c option)) =
           (if modelValue (props c) = Single (opt_value option) then Undefined
            else Single (opt_value option))
         \<and> showDropdown (select c option) = (if noClose (props c) then showDropdown c else False)
         \<and> select c option =
             (let c2 = set_localValue
                         (if modelValue (props c) = Single (opt_value option) then Undefined
                          else Single (opt_value option))
                         (emit (SelectEv option) c)
              in if noClose (props c) then c2 else closeDropdown c2)"
  using assms
  by (simp add: select_single Let_def closeDropdown_simps set_localValue_simps emit_simps)

theorem select_single_toggles_witness:
  "modelValue (props (select (example_component False False (Single (VNum 1))) option_one)) =
     Undefined
   \<and> modelValue (props (select (example_component False False (Single (VNum 3))) option_one)) =
     Single (VNum 1)
   \<and> \<not> showDropdown (select (example_component False False (Single (VNum 1))) option_one)"
  using select_single_toggles [of "example_component False False (Single (VNum 1))" option_one]
    select_single_toggles [of "example_component False False (Single (VNum 3))" option_one]
  by (simp add: example_defs closeDropdown_simps set_localValue_simps emit_simps)

text \<open>
  C4. \<open>selectAll\<close> calls \<open>select\<close> on the options that are not disabled and not current
  when it starts, in listed order: these are exactly the per-option notifications it
  emits. In multiple mode (not passive) with an array as bound value, and the values of
  those options pairwise different, the values are appended to the array in that order.
  With options 1, 2 (disabled), 3 and an empty array the result is the array 1, 3.
\<close>

theorem selectAll_selects_unselected:
  "select_notifications (trace (selectAll c)) =
     select_notifications (trace c)
       @ filter (\<lambda>option. \<not> opt_disabled option \<and> \<not> isCurrentValue c (opt_value option))
           (options (props c))
   \<and> (multiple (props c) \<and> \<not> passive (props c) \<and> modelValue (props c) = Multi xs
        \<and> distinct (map opt_value
             (filter (\<lambda>option. \<not> opt_disabled option \<and> \<not> isCurrentValue c (opt_value option))
                (options (props c))))
      \<longrightarrow> modelValue (props (selectAll c)) =
            Multi (xs @ map opt_value
              (filter (\<lambda>option. \<not> opt_disabled option \<and> \<not> isCurrentValue c (opt_value option))
                 (options (props c)))))
   \<and> (multiple (props c) \<and> \<not> passive (props c) \<and> modelValue (props c) = Multi []
        \<and> options (props c) =
            [\<lparr>opt_value = VNum 1, opt_label = l1, opt_disabled = False\<rparr>,
             \<lparr>opt_value = VNum 2, opt_label = l2, opt_disabled = True\<rparr>,
             \<lparr>opt_value = VNum 3, opt_label = l3, opt_disabled = False\<rparr>]
      \<longrightarrow> modelValue (props (selectAll c)) = Multi [VNum 1, VNum 3])"
proof -
  let ?sel = "filter (\<lambda>option. \<not> opt_disabled option \<and> \<not> isCurrentValue c (opt_value option))
                (options (props c))"
  have sel: "selectable c = ?sel"
    by (simp add: selectable_def)
  have notif: "select_notifications (trace (selectAll c)) = select_notifications (trace c) @ ?sel"
    by (simp add: selectAll_def select_notifications_foldl selectable_def conj_commute cong: conj_cong)
  have general: "modelValue (props (selectAll c)) = Multi (ys @ map opt_value ?sel)"
    if "multiple (props c)" "\<not> passive (props c)" "modelValue (props c) = Multi ys"
      "distinct (map opt_value ?sel)" for ys
  proof -
    have "\<forall>option \<in> set ?sel. \<not> opt_disabled option \<and> opt_value option \<notin> set ys"
      using that(1,3) by (simp add: isCurrentValue_def localValue_def)
    from foldl_select_push [OF that(1) that(2) that(3) that(4) this]
    show ?thesis by (simp add: selectAll_def sel)
  qed
  have example: "modelValue (props (selectAll c)) = Multi [VNum 1, VNum 3]"
    if "multiple (props c)" "\<not> passive (props c)" "modelValue (props c) = Multi []"
      "options (props c) =
            [\<lparr>opt_value = VNum 1, opt_label = l1, opt_disabled = False\<rparr>,
             \<lparr>opt_value = VNum 2, opt_label = l2, opt_disabled = True\<rparr>,
             \<lparr>opt_value = VNum 3, opt_label = l3, opt_disabled = False\<rparr>]"
  proof -
    have s: "?sel = [\<lparr>opt_value = VNum 1, opt_label = l1, opt_disabled = False\<rparr>,
             \<lparr>opt_value = VNum 3, opt_label = l3, opt_disabled = False\<rparr>]"
      using that by (simp add: isCurrentValue_def localValue_def)
    then have "distinct (map opt_value ?sel)" by simp
    from general [OF that(1) that(2) that(3) this] s show ?thesis by simp
  qed
  from notif general example show ?thesis by blast
qed

theorem selectAll_selects_unselected_witness:
  "modelValue (props (selectAll (example_component True False (Multi [])))) =
     Multi [VNum 1, VNum 3]
   \<and> select_notifications (trace (selectAll (example_component True False (Multi [])))) =
     [\<lparr>opt_value = VNum 1, opt_label = ''one'', opt_disabled = False\<rparr>,
      \<lparr>opt_value = VNum 3, opt_label = ''three'', opt_disabled = False\<rparr>]"
  using selectAll_selects_unselected [of "example_component True False (Multi [])" "[]"
      "''one''" "''two''" "''three''"]
  by (simp add: example_defs isCurrentValue_def localValue_def)

text \<open>
  C5. Whenever \<open>hasDirectionUp\<close> is evaluated, the direction is up exactly when the
  trigger's \<open>y\<close> is strictly greater than half the window height, and down otherwise:
  at exactly half the height it is down, and with no bounds or height recorded it is down
  as well. It is evaluated when it is read without a cached value, as on the first read
  after the first \<open>openDropdown\<close>; the value is then cached with the two refs read, and a
  change of either of them makes the next read evaluate again.
\<close>

theorem direction_up_above_half:
  "(hasDirectionUp_cache c = Dirty \<and> inputElementBounds c = Some b \<and> windowHeight c = Some h
      \<longrightarrow> hasDirectionUp rs c =
            (rs h / 2 < rs (bounds_y b),
             c\<lparr>hasDirectionUp_cache := Cached (rs h / 2 < rs (bounds_y b)) [bounds_y b, h]\<rparr>))
   \<and> (hasDirectionUp_cache c = Dirty \<and> (inputElementBounds c = None \<or> windowHeight c = None)
      \<longrightarrow> fst (hasDirectionUp rs c) = False)
   \<and> (store w i = Some c \<and> hasDirectionUp_cache c = Dirty
      \<longrightarrow> direction_up (openDropdown i b h d w) i =
            Some (refs w h / 2 < refs w (bounds_y b)))
   \<and> (hasDirectionUp_cache c = Cached v deps \<and> r \<in> set deps
      \<longrightarrow> hasDirectionUp_cache (trigger r c) = Dirty)"
proof -
  have fresh: "hasDirectionUp rs c =
      (rs h / 2 < rs (bounds_y b),
       c\<lparr>hasDirectionUp_cache := Cached (rs h / 2 < rs (bounds_y b)) [bounds_y b, h]\<rparr>)"
    if "hasDirectionUp_cache c = Dirty" "inputElementBounds c = Some b" "windowHeight c = Some h"
    using that by (rule hasDirectionUp_dirty)
  have unset: "fst (hasDirectionUp rs c) = False"
    if "hasDirectionUp_cache c = Dirty" "inputElementBounds c = None \<or> windowHeight c = None"
    using that
    by (auto simp add: hasDirectionUp_def hasDirectionUp_getter_def split: option.splits)
  have opened: "direction_up (openDropdown i b h d w) i =
      Some (refs w h / 2 < refs w (bounds_y b))"
    if "store w i = Some c" "hasDirectionUp_cache c = Dirty"
  proof -
    from openDropdown_placement [OF that(1), of b h d]
    obtain c' where c': "store (openDropdown i b h d w) i = Some c'"
      "inputElementBounds c' = Some b" "windowHeight c' = Some h"
      "hasDirectionUp_cache c' = hasDirectionUp_cache c"
      by blast
    from hasDirectionUp_dirty [of c' b h "refs w"] c' that(2)
    have "fst (hasDirectionUp (refs w) c') = (refs w h / 2 < refs w (bounds_y b))"
      by simp
    with c'(1) show ?thesis
      by (simp add: direction_up_def openDropdown_refs)
  qed
  have invalidated: "hasDirectionUp_cache (trigger r c) = Dirty"
    if "hasDirectionUp_cache c = Cached v deps" "r \<in> set deps"
    using that by (simp add: trigger_def)
  from fresh unset opened invalidated show ?thesis by blast
qed

text \<open>A trigger at \<open>y = 50\<close> in a window of height 100 opens downwards.\<close>

theorem direction_up_at_half_counterexample:
  "refs (example_page 50) (bounds_y (example_bounds 10)) \<ge> refs (example_page 50) 20 / 2
   \<and> direction_up (openDropdown 0 (example_bounds 10) 20 example_document (example_page 50)) 0 =
       Some False"
  by (simp add: example_page_def run_def set_ref_def empty_world_def mount_def
      example_bounds_def direction_up_def openDropdown_def Let_def on_component_def
      set_add_def close_if_open_def isOpen_def initial_def localValue_def example_props_def
      schedule_def hasDirectionUp_def hasDirectionUp_getter_def)

lemma example_page_eval:
  "refs (example_page 51) 10 = 51"
  "refs (example_page 51) 20 = 100"
  "refs (example_page 50) 10 = 50"
  "refs (example_page 50) 20 = 100"
  "store (example_page 51) 0 = Some (initial (example_props False False Undefined))"
  "store (example_page 50) 0 = Some (initial (example_props False False Undefined))"
  by (simp_all add: example_page_def run_def set_ref_def empty_world_def mount_def)

theorem direction_up_above_half_witness:
  "store (example_page 51) 0 = Some (initial (example_props False False Undefined))
   \<and> hasDirectionUp_cache (initial (example_props False False Undefined)) = Dirty
   \<and> direction_up (openDropdown 0 (example_bounds 10) 20 example_document (example_page 51)) 0 =
       Some True
   \<and> direction_up (openDropdown 0 (example_bounds 10) 20 example_document (example_page 50)) 0 =
       Some False
   \<and> hasDirectionUp_cache (trigger 20 (snd (hasDirectionUp (refs (example_page 51))
        ((initial (example_props False False Undefined))
           \<lparr>inputElementBounds := Some (example_bounds 10), windowHeight := Some 20\<rparr>)))) = Dirty"
proof -
  let ?c = "initial (example_props False False Undefined)"
  let ?c1 = "?c\<lparr>inputElementBounds := Some (example_bounds 10), windowHeight := Some 20\<rparr>"
  have dirty: "hasDirectionUp_cache ?c = Dirty" "hasDirectionUp_cache ?c1 = Dirty"
    by (simp_all add: initial_def Let_def localValue_def example_props_def)
  note up = direction_up_above_half [of ?c "example_bounds 10" 20 "refs (example_page 51)"
      "example_page 51" 0 example_document]
  note down = direction_up_above_half [of ?c "example_bounds 10" 20 "refs (example_page 50)"
      "example_page 50" 0 example_document]
  note first = direction_up_above_half [of ?c1 "example_bounds 10" 20 "refs (example_page 51)"]
  have read: "hasDirectionUp_cache (snd (hasDirectionUp (refs (example_page 51)) ?c1)) =
      Cached True [10, 20]"
    using first dirty(2) by (simp add: example_page_eval example_bounds_def)
  from direction_up_above_half [where c = "snd (hasDirectionUp (refs (example_page 51)) ?c1)"
      and v = True and deps = "[10, 20]" and r = 20] read
  have "hasDirectionUp_cache (trigger 20 (snd (hasDirectionUp (refs (example_page 51)) ?c1))) =
      Dirty"
    by simp
  with up down dirty(1) show ?thesis
    by (simp add: example_page_eval example_bounds_def)
qed

text \<open>
  A read that finds a cached value returns it, whatever the variables now hold: after a
  first open at \<open>y = 50\<close>, a render, a close and a second open with the bounds of another
  trigger at \<open>y = 51\<close>, the direction read is still down.
\<close>

lemma hasDirectionUp_after_reopen:
  "direction_up
     (run [SetRef 10 50, SetRef 11 51, SetRef 20 100,
           Mount (example_props False False Undefined),
           Open 0 (example_bounds 10) 20 example_document, Render 0, Close 0,
           Open 0 (example_bounds 11) 20 example_document]) 0 = Some False"
  by (simp add: run_def set_ref_def empty_world_def mount_def
      example_bounds_def direction_up_def openDropdown_def Let_def on_component_def
      set_add_def close_if_open_def isOpen_def initial_def localValue_def example_props_def
      schedule_def hasDirectionUp_def hasDirectionUp_getter_def render_def closeDropdown_def
      emit_def)

text \<open>
  C6. For a disabled option \<open>select\<close> does nothing, whatever the mode: no notification
  is emitted, the bound value and the open/closed state stay as they are; indeed the whole
  component is returned as it was.
\<close>

theorem select_disabled_noop:
  "opt_disabled option \<Longrightarrow> select c option = c"
  by (simp add: select_def)

theorem select_disabled_noop_witness:
  "opt_disabled option_two
   \<and> select (example_component True False (Multi [VNum 1])) option_two =
       example_component True False (Multi [VNum 1])"
  using select_disabled_noop [of option_two "example_component True False (Multi [VNum 1])"]
  by (simp add: option_two_def)

text \<open>
  C7. Passive mode, option not disabled: \<open>select\<close> emits the per-option notification and
  no \<^verbatim>\<open>update:modelValue\<close>; the props, and with them the bound value, stay as they are.
  In multiple mode nothing else changes; otherwise the component is closed by
  \<open>closeDropdown\<close>, which leaves the placement data and the remembered focus element alone.
\<close>

theorem select_passive_frame:
  assumes "passive (props c)" and "\<not> opt_disabled option"
  shows "props (select c option) = props c
         \<and> model_updates (trace (select c option)) = model_updates (trace c)
         \<and> select_notifications (trace (select c option)) =
             select_notifications (trace c) @ [option]
         \<and> inputElementBounds (select c option) = inputElementBounds c
         \<and> windowHeight (select c option) = windowHeight c
         \<and> lastFocusableOutsideElement (select c option) = lastFocusableOutsideElement c
         \<and> select c option =
             (if multiple (props c)
              then c\<lparr>trace := trace c @ [Emit (SelectEv option) (modelValue (props c))]\<rparr>
              else closeDropdown
                     (c\<lparr>trace := trace c @ [Emit (SelectEv option) (modelValue (props c))]\<rparr>))
         \<and> showDropdown (select c option) = (if multiple (props c) then showDropdown c else False)"
  using assms
  by (simp add: select_passive closeDropdown_simps closeDropdown_trace emit_simps
      model_updates_append select_notifications_append)

theorem select_passive_frame_witness:
  "props (select (example_component True True (Multi [])) option_one) =
     props (example_component True True (Multi []))
   \<and> showDropdown (select (example_component True True (Multi [])) option_one)
   \<and> \<not> showDropdown (select (example_component False True Undefined) option_one)
   \<and> props (select (example_component False True Undefined) option_one) =
     props (example_component False True Undefined)"
  using select_passive_frame [of "example_component True True (Multi [])" option_one]
    select_passive_frame [of "example_component False True Undefined" option_one]
  by (simp add: example_defs closeDropdown_simps)

text \<open>
  C8. Closing is idempotent on the state of the component: after \<open>closeDropdown\<close> the
  dropdown is closed, and a second call, by whichever path (Escape, a click outside), leaves
  the variables as the first call left them. Each call sends its outputs again (the close
  notification and the scheduled callbacks); there is no failing branch.
\<close>

theorem closeDropdown_idempotent:
  "\<not> showDropdown (closeDropdown c)
   \<and> state_of (closeDropdown (closeDropdown c)) = state_of (closeDropdown c)
   \<and> state_of (onEscape (onClickOutsideCallback c)) = state_of (closeDropdown c)
   \<and> state_of (onClickOutsideCallback (onEscape c)) = state_of (closeDropdown c)
   \<and> trace (closeDropdown (closeDropdown c)) =
       trace (closeDropdown c) @ drop (length (trace c)) (trace (closeDropdown c))"
  by (simp add: state_of_def onEscape_def onClickOutsideCallback_def closeDropdown_def
      emit_def schedule_def Let_def)

text \<open>
  C9. A component created with \<open>multiple\<close> and a bound value of \<^verbatim>\<open>null\<close> or \<^verbatim>\<open>undefined\<close>
  sets the bound value to the empty array at once. In multiple mode, starting from an
  array, the bound value is an array after every sequence of \<open>select\<close> and \<open>selectAll\<close>
  calls.
\<close>

theorem multiple_value_stays_array:
  "(multiple p \<and> (modelValue p = Null \<or> modelValue p = Undefined)
      \<longrightarrow> modelValue (props (initial p)) = Multi []
          \<and> trace (initial p) = [Emit (UpdateModelValue (Multi [])) (modelValue p)])
   \<and> (multiple (props c) \<and> modelValue (props c) = Multi xs
      \<longrightarrow> (\<exists>ys. modelValue (props (foldl apply_operation c ops)) = Multi ys))"
proof -
  have "modelValue (props (initial p)) = Multi []
          \<and> trace (initial p) = [Emit (UpdateModelValue (Multi [])) (modelValue p)]"
    if "multiple p" "modelValue p = Null \<or> modelValue p = Undefined"
    using that by (auto simp add: initial_def Let_def localValue_def set_localValue_simps)
  moreover have "\<exists>ys. modelValue (props (foldl apply_operation c ops)) = Multi ys"
    if "multiple (props c)" "modelValue (props c) = Multi xs"
    using foldl_apply_operation_keeps_array [OF that] by blast
  ultimately show ?thesis by blast
qed

theorem multiple_value_stays_array_witness:
  "modelValue (props (initial (example_props True False Null))) = Multi []
   \<and> modelValue (props (initial (example_props True False Undefined))) = Multi []
   \<and> (\<exists>ys. modelValue (props (foldl apply_operation (initial (example_props True False Null))
         [DoSelect option_one, DoSelectAll, DoSelect option_one])) = Multi ys)"
  using multiple_value_stays_array [of "example_props True False Null" 
      "initial (example_props True False Null)" "[]"
      "[DoSelect option_one, DoSelectAll, DoSelect option_one]"]
    multiple_value_stays_array [of "example_props True False Undefined"
      "initial (example_props True False Null)" "[]" "[]"]
  by (simp add: example_props_def initial_def Let_def localValue_def set_localValue_simps)

text \<open>
  C10. For an option that is not disabled, in every mode, the first thing \<open>select\<close> sends
  out is the per-option notification, and the bound value its listeners see is the one
  from before the call; whatever else the call sends comes later and holds no second
  per-option notification.
\<close>

theorem select_notifies_first:
  assumes "\<not> opt_disabled option"
  shows "\<exists>rest. trace (select c option) =
           trace c @ Emit (SelectEv option) (modelValue (props c)) # rest
         \<and> select_notifications rest = []"
  using assms
  by (simp add: select_def Let_def emit_simps set_localValue_simps closeDropdown_trace
      push_localValue_def localValue_def isArray_def split: model_value.splits)

theorem select_notifies_first_witness:
  "trace (select (example_component True False (Multi [])) option_one) =
     [Emit (SelectEv option_one) (Multi [])]
   \<and> modelValue (props (select (example_component True False (Multi [])) option_one)) =
     Multi [VNum 1]"
  using select_notifies_first [of option_one "example_component True False (Multi [])"]
  by (simp add: example_defs select_def Let_def emit_def isArray_def localValue_def
      push_localValue_def)

end
